theory Spec2Isabelle
  imports Complex_Main "HOL-Library.Word" "HOL-Library.Log_Nat"
begin

section \<open>Configuration and basic types\<close>

text \<open>
  The helper \<^verbatim>\<open>claude_snip_helper.py\<close> keeps three module globals
  (\<^verbatim>\<open>last_snip_ts\<close>, \<^verbatim>\<open>last_snip_seq\<close>, \<^verbatim>\<open>last_snip_bytes\<close>) written by the
  clipboard watcher and read by the mouse hook, and one global \<^verbatim>\<open>lock_socket\<close>.
  Every call into the operating system or into a library (win32gui, win32process,
  win32clipboard, psutil, PIL, pyperclip, socket) is a field of an environment record:
  its value is what the call returns at that moment, \<open>Inl e\<close> when it raises \<open>e\<close>.
  \<^verbatim>\<open>time.time()\<close> is a float of seconds: timestamps are double-precision numbers, and
  line 154 computes with them in double precision.
\<close>

type_synonym bytes = "8 word list"
type_synonym path = "string list"

datatype exn =
    PsutilError
  | PywintypesError
  | OSError
  | UnidentifiedImageError
  | PyperclipException
  | UnicodeEncodeError
  | ModuleNotFoundError

text \<open>\<^verbatim>\<open>except psutil.Error\<close> catches the psutil exceptions and nothing else.\<close>

fun is_psutil_Error :: "exn \<Rightarrow> bool" where
  "is_psutil_Error PsutilError = True"
| "is_psutil_Error _ = False"

definition CLICK_SUPPRESS_MS :: int where
  "CLICK_SUPPRESS_MS = 200"

definition SAVE_DIR :: "path \<Rightarrow> path" where
  "SAVE_DIR home = home @ [''Pictures'', ''Screenshots'']"

definition VS_CODE_EXE :: "string set" where
  "VS_CODE_EXE = {''code.exe'', ''code - insiders.exe'', ''vscode.exe''}"

text \<open>The constant \<^verbatim>\<open>mouse.LEFT\<close> of the mouse library.\<close>

definition LEFT :: string where
  "LEFT = ''left''"

text \<open>\<^verbatim>\<open>str.lower()\<close> on the ASCII letters; executable names are byte strings here.\<close>

definition lower_char :: "char \<Rightarrow> char" where
  "lower_char c =
     (case map_of (zip ''ABCDEFGHIJKLMNOPQRSTUVWXYZ'' ''abcdefghijklmnopqrstuvwxyz'') c of
        Some d \<Rightarrow> d
      | None \<Rightarrow> c)"

definition lower :: "string \<Rightarrow> string" where
  "lower s = map lower_char s"

subsection \<open>Double-precision numbers\<close>

text \<open>
  A finite double is \<open>m * 2 ^ e\<close> with an integer \<open>m\<close> of at most 53 bits. The difference
  and the product of two doubles are computed exactly and then rounded to 53 bits, to
  the nearest and to even on a tie, as IEEE 754 does. The exponent is not bounded:
  an overflow to infinity leaves the outcome of the comparison of line 154 as it is,
  and a difference or a product by 1000 that is subnormal is exact. \<^verbatim>\<open>time.time()\<close>
  gives neither an infinity nor a NaN.
\<close>

datatype double = Double (mant: int) (expo: int)

definition valof :: "double \<Rightarrow> real" where
  "valof d =
     (if 0 \<le> expo d then of_int (mant d) * 2 ^ nat (expo d)
      else of_int (mant d) / 2 ^ nat (- expo d))"

text \<open>\<open>m / 2 ^ k\<close> rounded to the nearest integer, to the even one on a tie.\<close>

definition round_even_div :: "int \<Rightarrow> nat \<Rightarrow> int" where
  "round_even_div m k =
     (let q = m div 2 ^ k; r = m mod 2 ^ k
      in if 2 * r < 2 ^ k then q
         else if 2 ^ k < 2 * r then q + 1
         else if even q then q else q + 1)"

definition rnd :: "double \<Rightarrow> double" where
  "rnd d =
     (let k = bitlen \<bar>mant d\<bar> - 53
      in if k \<le> 0 then d
         else Double (round_even_div (mant d) (nat k)) (expo d + k))"

definition sub_exact :: "double \<Rightarrow> double \<Rightarrow> double" where
  "sub_exact a b =
     (let e = min (expo a) (expo b)
      in Double (mant a * 2 ^ nat (expo a - e) - mant b * 2 ^ nat (expo b - e)) e)"

definition mul_exact :: "double \<Rightarrow> double \<Rightarrow> double" where
  "mul_exact a b = Double (mant a * mant b) (expo a + expo b)"

definition fsub :: "double \<Rightarrow> double \<Rightarrow> double" where
  "fsub a b = rnd (sub_exact a b)"

definition fmul :: "double \<Rightarrow> double \<Rightarrow> double" where
  "fmul a b = rnd (mul_exact a b)"

text \<open>A Python int that meets a float in an arithmetic operation is converted first.\<close>

definition float_of_int :: "int \<Rightarrow> double" where
  "float_of_int n = rnd (Double n 0)"

text \<open>
  The value is a multiple of \<open>2 ^ - 52\<close>, as is every double of magnitude 1 or more,
  and as is 0.
\<close>

definition on_grid :: "double \<Rightarrow> bool" where
  "on_grid d \<longleftrightarrow> - 52 \<le> expo d \<or> mant d mod 2 ^ nat (- 52 - expo d) = 0"

subsection \<open>The snapshot and the environment\<close>

record snapshot =
  last_snip_ts :: double
  last_snip_seq :: int
  last_snip_bytes :: bytes


record os =
  get_position :: "int \<times> int"
  GetForegroundWindow :: nat
  WindowFromPoint :: "int \<times> int \<Rightarrow> nat"
  GetWindowThreadProcessId :: "nat \<Rightarrow> exn + nat \<times> nat"
  Process_name :: "nat \<Rightarrow> exn + string"
  time_time :: double
  GetClipboardSequenceNumber :: int
  IsClipboardFormatAvailable_DIB :: bool
  OpenClipboard :: "exn option"
  GetClipboardData_DIB :: "exn + bytes"
  CloseClipboard :: "exn option"
  Image_open :: "bytes \<Rightarrow> exn + bytes"
  strftime_now :: string
  img_save :: "bytes \<Rightarrow> path \<Rightarrow> exn option"
  pyperclip_copy :: "path \<Rightarrow> exn option"
  print_error :: "string \<Rightarrow> exn option"
  home :: path

section \<open>Clipboard helpers\<close>

definition seq :: "os \<Rightarrow> int" where
  "seq env = GetClipboardSequenceNumber env"

definition dib_available :: "os \<Rightarrow> bool" where
  "dib_available env = IsClipboardFormatAvailable_DIB env"

text \<open>\<^verbatim>\<open>_read_dib\<close>: any exception of the three clipboard calls gives \<^verbatim>\<open>None\<close>.\<close>

definition read_dib :: "os \<Rightarrow> bytes option" where
  "read_dib env =
     (case OpenClipboard env of
        Some e \<Rightarrow> None
      | None \<Rightarrow>
          (case GetClipboardData_DIB env of
             Inl e \<Rightarrow> None
           | Inr data \<Rightarrow>
               (case CloseClipboard env of
                  Some e \<Rightarrow> None
                | None \<Rightarrow> Some data)))"

text \<open>
  \<^verbatim>\<open>_save_image\<close>: decode the payload, build the file name from the current local time,
  write the PNG. Neither call is guarded, so an exception of either leaves the function.
\<close>

definition save_image :: "os \<Rightarrow> bytes \<Rightarrow> exn + path" where
  "save_image env dib =
     (case Image_open env dib of
        Inl e \<Rightarrow> Inl e
      | Inr img \<Rightarrow>
          (let fname = SAVE_DIR (home env) @ [''screenshot_'' @ strftime_now env @ ''.png'']
           in case img_save env img fname of
                Some e \<Rightarrow> Inl e
              | None \<Rightarrow> Inr fname))"

section \<open>VS Code detection\<close>

definition pid_is_vscode :: "os \<Rightarrow> nat \<Rightarrow> exn + bool" where
  "pid_is_vscode env pid =
     (case Process_name env pid of
        Inr name \<Rightarrow> Inr (lower name \<in> VS_CODE_EXE)
      | Inl e \<Rightarrow> if is_psutil_Error e then Inr False else Inl e)"

definition foreground_is_vscode :: "os \<Rightarrow> exn + bool" where
  "foreground_is_vscode env =
     (let hwnd = GetForegroundWindow env
      in if hwnd = 0 then Inr False
         else (case GetWindowThreadProcessId env hwnd of
                 Inl e \<Rightarrow> Inl e
               | Inr (tid, pid) \<Rightarrow> pid_is_vscode env pid))"

definition window_at_point_is_vscode :: "os \<Rightarrow> int \<Rightarrow> int \<Rightarrow> exn + bool" where
  "window_at_point_is_vscode env x y =
     (let hwnd = WindowFromPoint env (x, y)
      in if hwnd = 0 then Inr False
         else (case GetWindowThreadProcessId env hwnd of
                 Inl e \<Rightarrow> Inl e
               | Inr (tid, pid) \<Rightarrow> pid_is_vscode env pid))"

section \<open>Mouse hook\<close>

text \<open>
  An event of the mouse library is a \<^verbatim>\<open>ButtonEvent\<close> (with its \<^verbatim>\<open>event_type\<close> and
  \<^verbatim>\<open>button\<close>), a \<^verbatim>\<open>MoveEvent\<close> or a \<^verbatim>\<open>WheelEvent\<close>.
\<close>

datatype event = ButtonEvent (event_type: string) (button: string) | MoveEvent | WheelEvent

text \<open>
  The handler returns \<^verbatim>\<open>None\<close> at five places; \<open>verdict\<close> names the place. The calls
  with an effect outside the handler are recorded in the order they are made, whether
  they return or raise.
\<close>

datatype verdict = Ignored | OutOfScope | Suppressed | Stale | Saved path

datatype call = SaveImage bytes | Copy path | Print string

text \<open>
  The condition of line 150, \<^verbatim>\<open>_foreground_is_vscode() or _window_at_point_is_vscode(x, y)\<close>:
  the second operand is evaluated only when the first is false.
\<close>

definition scope_check :: "os \<Rightarrow> exn + bool" where
  "scope_check env =
     (case get_position env of (x, y) \<Rightarrow>
        (case foreground_is_vscode env of
           Inl e \<Rightarrow> Inl e
         | Inr True \<Rightarrow> Inr True
         | Inr False \<Rightarrow> window_at_point_is_vscode env x y))"

text \<open>
  The condition of line 154, \<^verbatim>\<open>(time.time() - last_snip_ts) * 1000 <= CLICK_SUPPRESS_MS\<close>,
  on the two timestamps: a float subtraction, a float multiplication by the int 1000,
  and the comparison of the product with the int 200, which Python decides exactly.
\<close>

definition suppress_test :: "double \<Rightarrow> double \<Rightarrow> bool" where
  "suppress_test now ts \<longleftrightarrow>
     valof (fmul (fsub now ts) (float_of_int 1000)) \<le> of_int CLICK_SUPPRESS_MS"

definition suppressed :: "os \<Rightarrow> snapshot \<Rightarrow> bool" where
  "suppressed env st \<longleftrightarrow> suppress_test (time_time env) (last_snip_ts st)"

text \<open>The condition of line 158.\<close>

definition stale :: "os \<Rightarrow> snapshot \<Rightarrow> bool" where
  "stale env st \<longleftrightarrow> seq env \<noteq> last_snip_seq st \<or> \<not> dib_available env"

text \<open>\<^verbatim>\<open>str(path)\<close> joins the components with a backslash. In the confirmation line the
  check mark and the arrow are their UTF-8 bytes.\<close>

fun path_str :: "path \<Rightarrow> string" where
  "path_str [] = []"
| "path_str [c] = c"
| "path_str (c # cs) = c @ CHR 0x5C # path_str cs"

definition saved_message :: "path \<Rightarrow> string" where
  "saved_message p =
     [CHR 0xE2, CHR 0x9C, CHR 0x93] @ '' Saved '' @ [CHR 0xE2, CHR 0x86, CHR 0x92] @ '' ''
       @ path_str p @ ''  (path copied)''"

definition click_handler :: "os \<Rightarrow> snapshot \<Rightarrow> event \<Rightarrow> call list \<times> (exn + verdict)" where
  "click_handler env st ev =
     (case ev of
        MoveEvent \<Rightarrow> ([], Inr Ignored)
      | WheelEvent \<Rightarrow> ([], Inr Ignored)
      | ButtonEvent et b \<Rightarrow>
          if et \<noteq> ''down'' \<or> b \<noteq> LEFT then ([], Inr Ignored)
          else (case scope_check env of
                  Inl e \<Rightarrow> ([], Inl e)
                | Inr False \<Rightarrow> ([], Inr OutOfScope)
                | Inr True \<Rightarrow>
                    if suppressed env st then ([], Inr Suppressed)
                    else if stale env st then ([], Inr Stale)
                    else (case save_image env (last_snip_bytes st) of
                            Inl e \<Rightarrow> ([SaveImage (last_snip_bytes st)], Inl e)
                          | Inr p \<Rightarrow>
                              (case pyperclip_copy env p of
                                 Some e \<Rightarrow> ([SaveImage (last_snip_bytes st), Copy p], Inl e)
                               | None \<Rightarrow>
                                   (case print_error env (saved_message p) of
                                      Some e \<Rightarrow>
                                        ([SaveImage (last_snip_bytes st), Copy p,
                                          Print (saved_message p)], Inl e)
                                    | None \<Rightarrow>
                                        ([SaveImage (last_snip_bytes st), Copy p,
                                          Print (saved_message p)], Inr (Saved p)))))))"

section \<open>Clipboard watcher\<close>

text \<open>
  One pass through the body of the \<^verbatim>\<open>while True\<close> loop of \<^verbatim>\<open>_clip_monitor\<close>. The local
  \<^verbatim>\<open>seq_prev\<close> and the three globals are the state; the statements executed are
  recorded in order. The calls of one pass see one state of the clipboard.
  \<^verbatim>\<open>if dib:\<close> is false for \<^verbatim>\<open>None\<close> and for empty bytes.
\<close>

datatype poll_stmt =
    Seq_now_assign int
  | Seq_prev_assign int
  | Dib_available_call
  | Read_dib_call
  | Snapshot_assign
  | Sleep_call

definition poll_iteration ::
    "os \<Rightarrow> int \<times> snapshot \<Rightarrow> poll_stmt list \<times> (int \<times> snapshot)" where
  "poll_iteration env s =
     (case s of (seq_prev, st) \<Rightarrow>
        (let seq_now = seq env in
         if seq_now \<noteq> seq_prev then
           (if dib_available env then
              (case read_dib env of
                 None \<Rightarrow>
                   ([Seq_now_assign seq_now, Seq_prev_assign seq_now, Dib_available_call,
                     Read_dib_call, Sleep_call], (seq_now, st))
               | Some dib \<Rightarrow>
                   if dib \<noteq> [] then
                     ([Seq_now_assign seq_now, Seq_prev_assign seq_now, Dib_available_call,
                       Read_dib_call, Snapshot_assign, Sleep_call],
                      (seq_now, \<lparr>last_snip_ts = time_time env, last_snip_seq = seq_now,
                                  last_snip_bytes = dib\<rparr>))
                   else
                     ([Seq_now_assign seq_now, Seq_prev_assign seq_now, Dib_available_call,
                       Read_dib_call, Sleep_call], (seq_now, st)))
            else
              ([Seq_now_assign seq_now, Seq_prev_assign seq_now, Dib_available_call,
                Sleep_call], (seq_now, st)))
         else ([Seq_now_assign seq_now, Sleep_call], (seq_prev, st))))"

text \<open>
  The loop never ends; \<open>monitor_loop\<close> is its state after the passes of a finite list of
  clipboard states, one per pass. \<^verbatim>\<open>_clip_monitor\<close> reads \<^verbatim>\<open>seq_prev\<close> once before the loop.
\<close>

fun monitor_loop :: "os list \<Rightarrow> int \<times> snapshot \<Rightarrow> int \<times> snapshot" where
  "monitor_loop [] s = s"
| "monitor_loop (env # envs) s = monitor_loop envs (snd (poll_iteration env s))"

definition clip_monitor :: "os \<Rightarrow> os list \<Rightarrow> snapshot \<Rightarrow> int \<times> snapshot" where
  "clip_monitor env0 envs st = monitor_loop envs (seq env0, st)"

text \<open>The position of a statement in a trace, for "this one runs before that one".\<close>

fun index_of :: "'a \<Rightarrow> 'a list \<Rightarrow> nat option" where
  "index_of x [] = None"
| "index_of x (y # ys) = (if x = y then Some 0 else map_option Suc (index_of x ys))"

definition runs_before :: "'a \<Rightarrow> 'a \<Rightarrow> 'a list \<Rightarrow> bool" where
  "runs_before a b tr =
     (case index_of b tr of
        None \<Rightarrow> True
      | Some j \<Rightarrow> (case index_of a tr of None \<Rightarrow> False | Some i \<Rightarrow> i < j))"

section \<open>Instance lock\<close>

text \<open>
  \<^verbatim>\<open>lock_socket\<close> holds a socket object or \<^verbatim>\<open>None\<close>. Socket objects live in a store
  from socket ids to their state; \<^verbatim>\<open>socket.socket\<close>, \<^verbatim>\<open>bind\<close> and \<^verbatim>\<open>listen\<close> each
  succeed or raise \<^verbatim>\<open>OSError\<close>, as the record \<open>net\<close> says. A socket object is always
  true in \<^verbatim>\<open>if lock_socket:\<close>; closing a closed socket does nothing.
\<close>

datatype sock_state = Created | Bound | Listening | Closed

record gate =
  lock_socket :: "nat option"
  socks :: "nat \<Rightarrow> sock_state option"
  next_sock :: nat

record net =
  socket_raises :: bool
  bind_raises :: bool
  listen_raises :: bool

definition close_sock :: "nat \<Rightarrow> gate \<Rightarrow> gate" where
  "close_sock s g = g\<lparr>socks := (socks g)(s \<mapsto> Closed)\<rparr>"


definition release_lock :: "gate \<Rightarrow> gate" where
  "release_lock g =
     (case lock_socket g of
        None \<Rightarrow> g
      | Some s \<Rightarrow> (close_sock s g)\<lparr>lock_socket := None\<rparr>)"

definition gate0 :: gate where
  "gate0 = \<lparr>lock_socket = None, socks = Map.empty, next_sock = 0\<rparr>"

section \<open>Entry point\<close>

text \<open>
  The process: the directories that exist, the lines printed, the tracebacks the
  interpreter has written for uncaught exceptions, the lock, whether the watcher thread
  runs and whether the mouse hook is installed. The host: the value of \<^verbatim>\<open>sys.platform\<close>,
  whether the packages the script needs are installed, whether the \<^verbatim>\<open>mkdir\<close> of
  line 31 raises, what \<^verbatim>\<open>print\<close> does with a line (it raises \<^verbatim>\<open>UnicodeEncodeError\<close>
  when the encoding of the console has no code for a character), and the network.
\<close>

record proc =
  dirs :: "path set"
  stdout :: "string list"
  stderr :: "exn list"
  lock :: gate
  monitor_thread :: bool
  hooked :: bool

record host =
  sys_platform :: string
  packages_installed :: bool
  mkdir_error :: bool
  stdout_error :: "string \<Rightarrow> exn option"
  home_dir :: path
  network :: net

text \<open>
  How the process stands: ended by \<^verbatim>\<open>sys.exit(n)\<close>, ended by an exception nobody
  caught, or in the wait loop \<^verbatim>\<open>while True: time.sleep(1)\<close>. The interpreter ends a
  process with status 1, after writing the traceback, when an exception is not caught.
\<close>

datatype status = Exit int | Uncaught exn | Waiting


definition uncaught :: "exn \<Rightarrow> proc \<Rightarrow> proc \<times> status" where
  "uncaught e p = (p\<lparr>stderr := stderr p @ [e]\<rparr>, Uncaught e)"

definition print_line :: "host \<Rightarrow> string \<Rightarrow> proc \<Rightarrow> exn + proc" where
  "print_line h s p =
     (case stdout_error h s of
        Some e \<Rightarrow> Inl e
      | None \<Rightarrow> Inr (p\<lparr>stdout := stdout p @ [s]\<rparr>))"






definition msg_stopping :: string where
  "msg_stopping =
     [CHR 0x0A, CHR 0xF0, CHR 0x9F, CHR 0x9B, CHR 0x91] @ '' Stopping''
       @ [CHR 0xE2, CHR 0x80, CHR 0xA6]"


text \<open>
  \<^verbatim>\<open>KeyboardInterrupt\<close> in the wait loop: the handler prints and unhooks, the \<^verbatim>\<open>finally\<close>
  clause releases the lock also when the \<^verbatim>\<open>print\<close> of the handler raises, and \<^verbatim>\<open>main\<close>
  returns, which ends the script with status 0.
\<close>

definition interrupt :: "host \<Rightarrow> proc \<Rightarrow> proc \<times> status" where
  "interrupt h p =
     (case print_line h msg_stopping p of
        Inl e \<Rightarrow> uncaught e (p\<lparr>lock := release_lock (lock p)\<rparr>)
      | Inr p1 \<Rightarrow> (p1\<lparr>hooked := False, lock := release_lock (lock p1)\<rparr>, Exit 0))"


section \<open>The watcher and the hook running together\<close>

text \<open>
  The watcher runs in its own thread and the hook's callback in the thread of the mouse
  library; the source takes no lock. Each thread is a program counter over the lines
  of the source, and a step of a thread executes one line: the watcher's loop body
  (lines 126 to 135) and the handler from the suppression test on (lines 154, 158 and
  161), for a left button press that has passed the scope test. Between two steps the
  clipboard may get new content and the clock may advance. The fields \<open>w_seq_prev\<close>,
  \<open>w_seq_now\<close> and \<open>w_dib\<close> are the watcher's locals; the handler notes what it read
  from each global. Line 132 is reached only with data in \<^verbatim>\<open>dib\<close> (line 131).
\<close>

datatype wpc = L126 | L127 | L128 | L129 | L130 | L131 | L132 | L133 | L134 | L135

datatype hpc = L154 | L158 | L161 | Returned

record sys =
  snap :: snapshot
  clip_seq :: int
  clip_dib :: "bytes option"
  clock :: double
  w_pc :: wpc
  w_seq_prev :: int
  w_seq_now :: int
  w_dib :: "bytes option"
  h_pc :: hpc
  seen_ts :: "double option"
  seen_seq :: "int option"
  seen_bytes :: "bytes option"
  saved :: "bytes option"

definition watcher_step :: "sys \<Rightarrow> sys" where
  "watcher_step s =
     (case w_pc s of
        L126 \<Rightarrow> s\<lparr>w_seq_now := clip_seq s, w_pc := L127\<rparr>
      | L127 \<Rightarrow> s\<lparr>w_pc := (if w_seq_now s \<noteq> w_seq_prev s then L128 else L135)\<rparr>
      | L128 \<Rightarrow> s\<lparr>w_seq_prev := w_seq_now s, w_pc := L129\<rparr>
      | L129 \<Rightarrow> s\<lparr>w_pc := (if clip_dib s \<noteq> None then L130 else L135)\<rparr>
      | L130 \<Rightarrow> s\<lparr>w_dib := clip_dib s, w_pc := L131\<rparr>
      | L131 \<Rightarrow> s\<lparr>w_pc := (if w_dib s \<noteq> None \<and> w_dib s \<noteq> Some [] then L132 else L135)\<rparr>
      | L132 \<Rightarrow>
          (case w_dib s of
             None \<Rightarrow> s\<lparr>w_pc := L133\<rparr>
           | Some d \<Rightarrow> s\<lparr>snap := (snap s)\<lparr>last_snip_bytes := d\<rparr>, w_pc := L133\<rparr>)
      | L133 \<Rightarrow> s\<lparr>snap := (snap s)\<lparr>last_snip_seq := w_seq_now s\<rparr>, w_pc := L134\<rparr>
      | L134 \<Rightarrow> s\<lparr>snap := (snap s)\<lparr>last_snip_ts := clock s\<rparr>, w_pc := L135\<rparr>
      | L135 \<Rightarrow> s\<lparr>w_pc := L126\<rparr>)"

definition handler_step :: "sys \<Rightarrow> sys" where
  "handler_step s =
     (case h_pc s of
        L154 \<Rightarrow>
          s\<lparr>seen_ts := Some (last_snip_ts (snap s)),
            h_pc := (if suppress_test (clock s) (last_snip_ts (snap s))
                     then Returned else L158)\<rparr>
      | L158 \<Rightarrow>
          s\<lparr>seen_seq := Some (last_snip_seq (snap s)),
            h_pc := (if clip_seq s \<noteq> last_snip_seq (snap s) \<or> clip_dib s = None
                     then Returned else L161)\<rparr>
      | L161 \<Rightarrow>
          s\<lparr>seen_bytes := Some (last_snip_bytes (snap s)),
            saved := Some (last_snip_bytes (snap s)), h_pc := Returned\<rparr>
      | Returned \<Rightarrow> s)"

datatype actor = Watcher | Handler | Clipboard int "bytes option" | Clock double

fun step :: "actor \<Rightarrow> sys \<Rightarrow> sys" where
  "step Watcher s = watcher_step s"
| "step Handler s = handler_step s"
| "step (Clipboard n d) s = s\<lparr>clip_seq := n, clip_dib := d\<rparr>"
| "step (Clock t) s = s\<lparr>clock := t\<rparr>"

fun run :: "actor list \<Rightarrow> sys \<Rightarrow> sys" where
  "run [] s = s"
| "run (a # as) s = run as (step a s)"

text \<open>What the handler has read so far all comes from the one snapshot \<open>st\<close>.\<close>

definition seen_from :: "sys \<Rightarrow> snapshot \<Rightarrow> bool" where
  "seen_from s st \<longleftrightarrow>
     seen_ts s \<in> {None, Some (last_snip_ts st)} \<and>
     seen_seq s \<in> {None, Some (last_snip_seq st)} \<and>
     seen_bytes s \<in> {None, Some (last_snip_bytes st)}"

section \<open>Example states\<close>

text \<open>
  VS Code (\<^verbatim>\<open>Code.exe\<close>, process 4242, window 11) is in the foreground, the pointer is
  over a window of the Explorer, the clipboard holds a bitmap under sequence number 7,
  and the snapshot of that bitmap was taken at second 1000.
\<close>

definition env_vscode :: os where
  "env_vscode =
     \<lparr>get_position = (640, 360),
      GetForegroundWindow = 11,
      WindowFromPoint = (\<lambda>p. 12),
      GetWindowThreadProcessId = (\<lambda>h. if h = 11 then Inr (1, 4242) else Inr (2, 77)),
      Process_name = (\<lambda>p. if p = 4242 then Inr ''Code.exe'' else Inr ''explorer.exe''),
      time_time = Double 1010 0,
      GetClipboardSequenceNumber = 7,
      IsClipboardFormatAvailable_DIB = True,
      OpenClipboard = None,
      GetClipboardData_DIB = Inr [40, 0, 0, 0],
      CloseClipboard = None,
      Image_open = (\<lambda>b. if b = [] then Inl UnidentifiedImageError else Inr b),
      strftime_now = ''20240131_101530'',
      img_save = (\<lambda>img p. None),
      pyperclip_copy = (\<lambda>p. None),
      print_error = (\<lambda>s. None),
      home = [''C:'', ''Users'', ''me'']\<rparr>"

definition snap7 :: snapshot where
  "snap7 =
     \<lparr>last_snip_ts = Double 1000 0, last_snip_seq = 7, last_snip_bytes = [40, 0, 0, 0]\<rparr>"






text \<open>The foreground window 11 is destroyed before its process is asked for.\<close>

definition env_gone :: os where
  "env_gone = env_vscode\<lparr>GetWindowThreadProcessId := (\<lambda>h. Inl PywintypesError)\<rparr>"

text \<open>The process of the foreground window has ended before psutil looks it up.\<close>

definition env_exited :: os where
  "env_exited = env_vscode\<lparr>Process_name := (\<lambda>p. Inl PsutilError), WindowFromPoint := (\<lambda>p. 0)\<rparr>"

text \<open>The screenshots directory cannot be written.\<close>

definition env_readonly :: os where
  "env_readonly = env_vscode\<lparr>img_save := (\<lambda>img p. Some OSError)\<rparr>"

text \<open>
  The clipboard has moved on to sequence number 8 and still holds a bitmap, but another
  program keeps the clipboard open, so that it cannot be read.
\<close>

definition env_locked :: os where
  "env_locked = env_vscode\<lparr>GetClipboardSequenceNumber := 8, OpenClipboard := Some PywintypesError\<rparr>"

definition env_new_snip :: os where
  "env_new_snip = env_vscode\<lparr>GetClipboardSequenceNumber := 8, GetClipboardData_DIB := Inr [40, 1]\<rparr>"






text \<open>A gate that holds its lock: socket 0 listens on the port.\<close>

definition gate_held :: gate where
  "gate_held = \<lparr>lock_socket = Some 0, socks = [0 \<mapsto> Listening], next_sock = 1\<rparr>"

text \<open>
  Both threads at their first line, ten seconds after the snapshot \<open>snap7\<close> was taken,
  with that bitmap still on the clipboard.
\<close>

definition sys0 :: sys where
  "sys0 =
     \<lparr>snap = snap7, clip_seq = 7, clip_dib = Some [40, 0, 0, 0], clock = Double 1010 0,
      w_pc = L126, w_seq_prev = 7, w_seq_now = 7, w_dib = None,
      h_pc = L154, seen_ts = None, seen_seq = None, seen_bytes = None, saved = None\<rparr>"

text \<open>
  The handler passes its two tests on the old snapshot, a new snip arrives, the watcher
  gets as far as line 132, and the handler then reads the payload.
\<close>

definition torn_schedule :: "actor list" where
  "torn_schedule =
     [Handler, Handler, Clipboard 8 (Some [40, 1]),
      Watcher, Watcher, Watcher, Watcher, Watcher, Watcher, Watcher, Handler]"

text \<open>
  A new snip arrives, the watcher runs up to line 133 but not line 134, and the click
  that comes a moment later is tested against the capture time of the old snapshot.
\<close>

definition late_ts_schedule :: "actor list" where
  "late_ts_schedule =
     [Clipboard 8 (Some [40, 1]),
      Watcher, Watcher, Watcher, Watcher, Watcher, Watcher, Watcher, Watcher,
      Handler, Handler, Handler]"

section \<open>Rounding to double precision\<close>

lemma valof_powr: "valof d = of_int (mant d) * 2 powr of_int (expo d)"
  by (simp add: valof_def powr_int field_simps)

lemma pow2_nat: "0 \<le> k \<Longrightarrow> (2::real) powr of_int k = 2 ^ nat k"
  by (simp add: powr_int)

lemma pow2_split:
  assumes "0 \<le> i - j"
  shows "(2::real) powr of_int i = 2 ^ nat (i - j) * 2 powr of_int j"
proof -
  have "(2::real) powr of_int i = 2 powr (of_int (i - j) + of_int j)"
    by simp
  also have "\<dots> = 2 powr of_int (i - j) * 2 powr of_int j"
    by (rule powr_add)
  also have "\<dots> = 2 ^ nat (i - j) * 2 powr of_int j"
    by (simp only: pow2_nat [OF assms])
  finally show ?thesis .
qed

lemma pow2_53: "(2::real) powr (x - 54) = 2 powr (x - 1) / 2 ^ 53"
proof -
  have "(2::real) powr (x - 54) = 2 powr ((x - 1) - 53)"
    by simp
  also have "\<dots> = 2 powr (x - 1) / 2 powr 53"
    by (rule powr_diff)
  also have "(2::real) powr 53 = 2 ^ 53"
    by simp
  finally show ?thesis .
qed

lemma valof_sub_exact: "valof (sub_exact a b) = valof a - valof b"
proof -
  define e where "e = min (expo a) (expo b)"
  have ea: "0 \<le> expo a - e" and eb: "0 \<le> expo b - e"
    by (simp_all add: e_def)
  have a: "(2::real) powr of_int (expo a) = 2 ^ nat (expo a - e) * 2 powr of_int e"
    by (rule pow2_split [OF ea])
  have b: "(2::real) powr of_int (expo b) = 2 ^ nat (expo b - e) * 2 powr of_int e"
    by (rule pow2_split [OF eb])
  have "valof (sub_exact a b)
      = (of_int (mant a) * 2 ^ nat (expo a - e) - of_int (mant b) * 2 ^ nat (expo b - e))
          * 2 powr of_int e"
    by (simp add: sub_exact_def Let_def valof_powr e_def)
  also have "\<dots> = valof a - valof b"
    by (simp add: valof_powr a b algebra_simps)
  finally show ?thesis .
qed

lemma valof_mul_exact: "valof (mul_exact a b) = valof a * valof b"
  by (simp add: mul_exact_def valof_powr powr_add)

lemma red_err:
  assumes "0 < k"
  shows "\<bar>2 * (round_even_div m k * 2 ^ k - m)\<bar> \<le> 2 ^ k"
proof -
  define q where "q = m div 2 ^ k"
  define r where "r = m mod 2 ^ k"
  have m: "m = q * 2 ^ k + r"
    unfolding q_def r_def by (rule div_mult_mod_eq [symmetric])
  have r: "0 \<le> r" "r < 2 ^ k" by (simp_all add: r_def)
  have "round_even_div m k = q \<and> 2 * r \<le> 2 ^ k \<or> round_even_div m k = q + 1 \<and> 2 ^ k \<le> 2 * r"
    by (auto simp: round_even_div_def Let_def q_def r_def)
  then show ?thesis
    using r by (auto simp: m algebra_simps)
qed

lemma red_nonneg: "0 \<le> m \<Longrightarrow> 0 \<le> round_even_div m k"
proof -
  assume "0 \<le> m"
  then have "0 \<le> m div 2 ^ k" by (simp add: pos_imp_zdiv_nonneg_iff)
  then show ?thesis by (auto simp: round_even_div_def Let_def)
qed

lemma red_nonpos: "m \<le> 0 \<Longrightarrow> round_even_div m k \<le> 0"
proof -
  assume le: "m \<le> 0"
  show ?thesis
  proof (cases "m = 0")
    case True
    then show ?thesis by (simp add: round_even_div_def)
  next
    case False
    with le have "m < 0" by simp
    then have "m div 2 ^ k < 0" by (simp add: div_neg_pos_less0)
    then show ?thesis by (auto simp: round_even_div_def Let_def)
  qed
qed

lemma valof_sign: "0 \<le> valof d \<longleftrightarrow> 0 \<le> mant d" "valof d \<le> 0 \<longleftrightarrow> mant d \<le> 0"
  by (simp_all add: valof_powr zero_le_mult_iff mult_le_0_iff)

lemma rnd_nonneg: "0 \<le> valof d \<Longrightarrow> 0 \<le> valof (rnd d)"
  by (simp add: valof_sign rnd_def Let_def red_nonneg)

lemma rnd_nonpos: "valof d \<le> 0 \<Longrightarrow> valof (rnd d) \<le> 0"
  by (simp add: valof_sign rnd_def Let_def red_nonpos)

text \<open>The binade of a value: \<open>2 ^ (B - 1) \<le> |v| < 2 ^ B\<close> with \<open>B = bitlen |m| + e\<close>.\<close>

lemma valof_lower:
  assumes "mant d \<noteq> 0"
  shows "2 powr (of_int (bitlen \<bar>mant d\<bar> + expo d) - 1) \<le> \<bar>valof d\<bar>"
proof -
  have pos: "0 < \<bar>mant d\<bar>" using assms by simp
  from bitlen_bounds [OF pos] have "2 ^ nat (bitlen \<bar>mant d\<bar> - 1) \<le> \<bar>mant d\<bar>" ..
  then have "(2::real) ^ nat (bitlen \<bar>mant d\<bar> - 1) \<le> of_int \<bar>mant d\<bar>"
    by (metis of_int_le_iff of_int_numeral of_int_power)
  moreover have "1 \<le> bitlen \<bar>mant d\<bar>"
    using pos by (simp add: bitlen_alt_def)
  ultimately have "(2::real) powr of_int (bitlen \<bar>mant d\<bar> - 1) \<le> of_int \<bar>mant d\<bar>"
    by (simp only: pow2_nat)
  then have "(2::real) powr of_int (bitlen \<bar>mant d\<bar> - 1) * 2 powr of_int (expo d)
      \<le> of_int \<bar>mant d\<bar> * 2 powr of_int (expo d)"
    by (rule mult_right_mono) simp
  then show ?thesis
    by (simp add: valof_powr abs_mult powr_add [symmetric] algebra_simps)
qed

lemma rnd_error:
  "\<bar>valof (rnd d) - valof d\<bar> \<le> 2 powr (of_int (bitlen \<bar>mant d\<bar> + expo d) - 54)"
proof (cases "bitlen \<bar>mant d\<bar> - 53 \<le> 0")
  case True
  then show ?thesis by (simp add: rnd_def)
next
  case False
  define k where "k = bitlen \<bar>mant d\<bar> - 53"
  define q where "q = round_even_div (mant d) (nat k)"
  from False have k: "0 < k" by (simp add: k_def)
  then have nk: "0 < nat k" by simp
  have r: "rnd d = Double q (expo d + k)"
    using False by (simp add: rnd_def k_def q_def Let_def)
  have "\<bar>2 * (q * 2 ^ nat k - mant d)\<bar> \<le> 2 ^ nat k"
    unfolding q_def by (rule red_err [OF nk])
  then have "of_int \<bar>2 * (q * 2 ^ nat k - mant d)\<bar> \<le> (of_int (2 ^ nat k) :: real)"
    by (simp only: of_int_le_iff)
  moreover have "(of_int \<bar>2 * (q * 2 ^ nat k - mant d)\<bar> :: real)
      = \<bar>2 * (of_int q * 2 ^ nat k - of_int (mant d))\<bar>"
    by simp
  moreover have "\<bar>2 * (of_int q * 2 ^ nat k - of_int (mant d))\<bar>
      = 2 * \<bar>of_int q * 2 ^ nat k - real_of_int (mant d)\<bar>"
    by (subst abs_mult) simp
  ultimately have i: "\<bar>of_int q * 2 ^ nat k - of_int (mant d)\<bar> \<le> (2::real) ^ nat k / 2"
    by simp
  have p: "(2::real) powr of_int (expo d + k) = 2 ^ nat k * 2 powr of_int (expo d)"
    using pow2_split [of "expo d + k" "expo d"] k by simp
  have "valof (rnd d) = of_int q * 2 powr of_int (expo d + k)"
    by (simp only: r valof_powr double.sel)
  then have "valof (rnd d) = of_int q * (2 ^ nat k * 2 powr of_int (expo d))"
    by (simp only: p)
  then have "valof (rnd d) - valof d
      = (of_int q * 2 ^ nat k - of_int (mant d)) * 2 powr of_int (expo d)"
    by (simp add: valof_powr algebra_simps)
  then have "\<bar>valof (rnd d) - valof d\<bar>
      = \<bar>of_int q * 2 ^ nat k - of_int (mant d)\<bar> * 2 powr of_int (expo d)"
    by (simp add: abs_mult)
  also have "\<dots> \<le> 2 ^ nat k / 2 * 2 powr of_int (expo d)"
    by (rule mult_right_mono [OF i]) simp
  also have "\<dots> = 2 powr (of_int k - 1) * 2 powr of_int (expo d)"
    using k by (simp add: powr_diff pow2_nat)
  also have "\<dots> = 2 powr (of_int (bitlen \<bar>mant d\<bar> + expo d) - 54)"
    by (simp add: powr_add [symmetric] k_def algebra_simps)
  finally show ?thesis .
qed

lemma rnd_rel_error: "\<bar>valof (rnd d) - valof d\<bar> \<le> \<bar>valof d\<bar> / 2 ^ 53"
proof (cases "mant d = 0")
  case True
  then show ?thesis by (simp add: rnd_def)
next
  case False
  have "(2::real) powr (of_int (bitlen \<bar>mant d\<bar> + expo d) - 54)
      = 2 powr (of_int (bitlen \<bar>mant d\<bar> + expo d) - 1) / 2 ^ 53"
    by (rule pow2_53)
  also have "\<dots> \<le> \<bar>valof d\<bar> / 2 ^ 53"
    using valof_lower [OF False] by (simp add: divide_right_mono)
  finally show ?thesis
    using rnd_error [of d] by linarith
qed

lemma rnd_abs_error:
  assumes "\<bar>valof d\<bar> < 2 powr (of_int E + 1)"
  shows "\<bar>valof (rnd d) - valof d\<bar> \<le> 2 powr (of_int E - 53)"
proof (cases "mant d = 0")
  case True
  then show ?thesis by (simp add: rnd_def)
next
  case False
  from valof_lower [OF False] assms
  have "(2::real) powr (of_int (bitlen \<bar>mant d\<bar> + expo d) - 1) < 2 powr (of_int E + 1)"
    by linarith
  then have "of_int (bitlen \<bar>mant d\<bar> + expo d) - 1 < (of_int E + 1 :: real)"
    by simp
  then have "bitlen \<bar>mant d\<bar> + expo d - 1 < E + 1"
    by linarith
  then have "bitlen \<bar>mant d\<bar> + expo d \<le> E + 1"
    by simp
  then have "(of_int (bitlen \<bar>mant d\<bar> + expo d) - 54 :: real) \<le> of_int E - 53"
    by linarith
  then have "(2::real) powr (of_int (bitlen \<bar>mant d\<bar> + expo d) - 54) \<le> 2 powr (of_int E - 53)"
    by simp
  with rnd_error [of d] show ?thesis by linarith
qed

lemma rnd_abs_error_quarter:
  "\<bar>valof d\<bar> < 1 / 4 \<Longrightarrow> \<bar>valof (rnd d) - valof d\<bar> \<le> 1 / 2 ^ 56"
  using rnd_abs_error [of d "- 3"] by (simp add: powr_minus_divide)

lemma rnd_abs_error_256:
  "\<bar>valof d\<bar> < 256 \<Longrightarrow> \<bar>valof (rnd d) - valof d\<bar> \<le> 1 / 2 ^ 46"
  using rnd_abs_error [of d 7] by (simp add: powr_minus_divide)

lemma pows:
  "(2::real) ^ 45 = 35184372088832" "(2::real) ^ 46 = 70368744177664"
  "(2::real) ^ 52 = 4503599627370496" "(2::real) ^ 53 = 9007199254740992"
  "(2::real) ^ 56 = 72057594037927936"
  by simp_all

lemma float_of_int_1000: "float_of_int 1000 = Double 1000 0"
  by code_simp

lemma rnd_mant_bound: "\<bar>mant (rnd d)\<bar> \<le> 2 ^ 53"
proof (cases "bitlen \<bar>mant d\<bar> - 53 \<le> 0")
  case True
  show ?thesis
  proof (cases "mant d = 0")
    case True
    then show ?thesis by (simp add: rnd_def)
  next
    case False
    then have pos: "0 < \<bar>mant d\<bar>" by simp
    from bitlen_bounds [OF pos] have "\<bar>mant d\<bar> < 2 ^ nat (bitlen \<bar>mant d\<bar>)" ..
    also have "(2::int) ^ nat (bitlen \<bar>mant d\<bar>) \<le> 2 ^ 53"
      using True by (intro power_increasing) simp_all
    finally show ?thesis using True by (simp add: rnd_def)
  qed
next
  case False
  define k where "k = bitlen \<bar>mant d\<bar> - 53"
  define q where "q = round_even_div (mant d) (nat k)"
  from False have k: "0 < k" by (simp add: k_def)
  then have nk: "0 < nat k" by simp
  have r: "rnd d = Double q (expo d + k)"
    using False by (simp add: rnd_def k_def q_def Let_def)
  have pos: "0 < \<bar>mant d\<bar>"
    using False by (cases "mant d = 0") simp_all
  have bl: "nat (bitlen \<bar>mant d\<bar>) = 53 + nat k"
    using k by (simp add: k_def nat_add_distrib [symmetric])
  from bitlen_bounds [OF pos] have "\<bar>mant d\<bar> < 2 ^ nat (bitlen \<bar>mant d\<bar>)" ..
  then have m: "\<bar>mant d\<bar> < 2 ^ 53 * 2 ^ nat k"
    by (simp add: bl power_add)
  have e: "\<bar>2 * (q * 2 ^ nat k - mant d)\<bar> \<le> 2 ^ nat k"
    unfolding q_def by (rule red_err [OF nk])
  have "\<bar>q\<bar> * 2 ^ nat k = \<bar>q * 2 ^ nat k\<bar>"
    by (simp add: abs_mult)
  also have "\<dots> \<le> \<bar>q * 2 ^ nat k - mant d\<bar> + \<bar>mant d\<bar>"
    by simp
  also have "\<dots> < 2 ^ nat k + 2 ^ 53 * 2 ^ nat k"
    using e m by simp
  also have "\<dots> = (2 ^ 53 + 1) * 2 ^ nat k"
    by (simp add: algebra_simps)
  finally have "\<bar>q\<bar> < 2 ^ 53 + 1"
    by simp
  then show ?thesis by (simp add: r)
qed

lemma grid_above_200:
  assumes m: "\<bar>mant w\<bar> \<le> 2 ^ 53" and v: "200 < valof w"
  shows "200 + 1 / 2 ^ 45 \<le> valof w"
proof -
  from v have "0 < real_of_int (mant w) * 2 powr of_int (expo w)"
    by (simp add: valof_powr)
  then have "0 < real_of_int (mant w)"
    by (simp add: zero_less_mult_iff)
  then have mpos: "0 < mant w"
    by simp
  have "(128::real) < of_int (mant w) * 2 powr of_int (expo w)"
    using v by (simp add: valof_powr)
  also have "\<dots> \<le> 2 ^ 53 * 2 powr of_int (expo w)"
  proof (rule mult_right_mono)
    have "mant w \<le> 2 ^ 53" using m by simp
    then show "real_of_int (mant w) \<le> 2 ^ 53"
      by (metis of_int_le_iff of_int_numeral of_int_power)
  qed simp
  finally have "(2::real) powr 7 < 2 powr 53 * 2 powr of_int (expo w)"
    by simp
  then have "(2::real) powr 7 < 2 powr (53 + of_int (expo w))"
    by (simp only: powr_add)
  then have "(7::real) < 53 + of_int (expo w)"
    by (rule powr_less_cancel) simp
  then have e: "0 \<le> expo w + 45"
    by linarith
  define N where "N = mant w * 2 ^ nat (expo w + 45)"
  have "(2::real) powr of_int (expo w) = 2 powr of_int ((expo w + 45) + (- 45))"
    by simp
  also have "\<dots> = 2 powr of_int (expo w + 45) * 2 powr of_int (- 45)"
    by (simp only: of_int_add powr_add)
  also have "\<dots> = 2 ^ nat (expo w + 45) / 2 ^ 45"
    by (simp only: pow2_nat [OF e]) (simp add: powr_minus_divide)
  finally have val: "valof w = of_int N / 2 ^ 45"
    by (simp add: valof_powr N_def)
  with v have "(200 * 2 ^ 45 :: real) < of_int N"
    by (simp add: field_simps)
  then have "(of_int (200 * 2 ^ 45) :: real) < of_int N"
    by simp
  then have "200 * 2 ^ 45 < N"
    by (simp only: of_int_less_iff)
  then have "200 * 2 ^ 45 + 1 \<le> N"
    by simp
  then have "(of_int (200 * 2 ^ 45 + 1) :: real) \<le> of_int N"
    by (simp only: of_int_le_iff)
  then show ?thesis
    by (simp add: val field_simps)
qed


text \<open>Every double of magnitude 1 or more is on the grid, and so is 0.\<close>

lemma on_grid_ge_1:
  assumes m: "\<bar>mant d\<bar> < 2 ^ 53" and v: "1 \<le> \<bar>valof d\<bar>"
  shows "on_grid d"
proof -
  have "(1::real) \<le> of_int \<bar>mant d\<bar> * 2 powr of_int (expo d)"
    using v by (simp add: valof_powr abs_mult)
  also have "\<dots> < 2 ^ 53 * 2 powr of_int (expo d)"
  proof (rule mult_strict_right_mono)
    show "real_of_int \<bar>mant d\<bar> < 2 ^ 53"
      using m by (metis of_int_less_iff of_int_numeral of_int_power)
  qed simp
  finally have "(2::real) powr 0 < 2 powr 53 * 2 powr of_int (expo d)"
    by simp
  then have "(2::real) powr 0 < 2 powr (53 + of_int (expo d))"
    by (simp only: powr_add)
  then have "(0::real) < 53 + of_int (expo d)"
    by (rule powr_less_cancel) simp
  then have "- 52 \<le> expo d"
    by linarith
  then show ?thesis
    by (simp add: on_grid_def)
qed

lemma on_grid_zero: "on_grid (Double 0 e)"
  by (simp add: on_grid_def)

lemma valof_elapsed:
  "\<exists>dv. valof (fsub now ts) = dv
     \<and> \<bar>dv - (valof now - valof ts)\<bar> \<le> \<bar>valof now - valof ts\<bar> / 2 ^ 53
     \<and> (\<bar>valof now - valof ts\<bar> < 1 / 4 \<longrightarrow> \<bar>dv - (valof now - valof ts)\<bar> \<le> 1 / 2 ^ 56)
     \<and> (0 \<le> valof now - valof ts \<longrightarrow> 0 \<le> dv)
     \<and> (valof now - valof ts \<le> 0 \<longrightarrow> dv \<le> 0)"
  using rnd_rel_error [of "sub_exact now ts"] rnd_abs_error_quarter [of "sub_exact now ts"]
    rnd_nonneg [of "sub_exact now ts"] rnd_nonpos [of "sub_exact now ts"]
  by (simp add: fsub_def valof_sub_exact)

lemma valof_times_1000:
  "\<bar>valof (fmul d (float_of_int 1000)) - 1000 * valof d\<bar> \<le> \<bar>1000 * valof d\<bar> / 2 ^ 53"
  "\<bar>1000 * valof d\<bar> < 256 \<Longrightarrow> \<bar>valof (fmul d (float_of_int 1000)) - 1000 * valof d\<bar> \<le> 1 / 2 ^ 46"
  "valof d \<le> 0 \<Longrightarrow> valof (fmul d (float_of_int 1000)) \<le> 0"
  "200 < valof (fmul d (float_of_int 1000)) \<Longrightarrow> 200 + 1 / 2 ^ 45 \<le> valof (fmul d (float_of_int 1000))"
proof -
  have v: "valof (mul_exact d (Double 1000 0)) = 1000 * valof d"
    by (simp add: valof_mul_exact) (simp add: valof_def)
  show "\<bar>valof (fmul d (float_of_int 1000)) - 1000 * valof d\<bar> \<le> \<bar>1000 * valof d\<bar> / 2 ^ 53"
    using rnd_rel_error [of "mul_exact d (Double 1000 0)"]
    by (simp only: fmul_def float_of_int_1000 v)
  show "\<bar>1000 * valof d\<bar> < 256 \<Longrightarrow> \<bar>valof (fmul d (float_of_int 1000)) - 1000 * valof d\<bar> \<le> 1 / 2 ^ 46"
    using rnd_abs_error_256 [of "mul_exact d (Double 1000 0)"]
    by (simp only: fmul_def float_of_int_1000 v)
  show "valof d \<le> 0 \<Longrightarrow> valof (fmul d (float_of_int 1000)) \<le> 0"
    using rnd_nonpos [of "mul_exact d (Double 1000 0)"]
    by (simp add: fmul_def float_of_int_1000 v)
  show "200 < valof (fmul d (float_of_int 1000)) \<Longrightarrow> 200 + 1 / 2 ^ 45 \<le> valof (fmul d (float_of_int 1000))"
    using grid_above_200 [OF rnd_mant_bound, of "mul_exact d (Double 1000 0)"]
    by (simp only: fmul_def float_of_int_1000)
qed


text \<open>From 201 ms after the capture on the product is above 200.\<close>

lemma elapsed_gt_200:
  assumes "201 / 1000 \<le> valof now - valof ts"
  shows "200 < valof (fmul (fsub now ts) (float_of_int 1000))"
proof -
  define x where "x = valof now - valof ts"
  define dv where "dv = valof (fsub now ts)"
  define pv where "pv = valof (fmul (fsub now ts) (float_of_int 1000))"
  note pv = pv_def
  from assms have x: "201 / 1000 \<le> x" by (simp add: x_def)
  from valof_elapsed [of now ts]
  have "\<bar>dv - x\<bar> \<le> \<bar>x\<bar> / 2 ^ 53"
    by (simp add: x_def dv_def)
  with x have d: "2005 / 10000 \<le> dv" unfolding pows by linarith
  then have dpos: "0 < dv" by linarith
  have "\<bar>pv - 1000 * dv\<bar> \<le> \<bar>1000 * dv\<bar> / 2 ^ 53"
    unfolding pv dv_def by (rule valof_times_1000(1))
  with dpos have "1000 * dv - 1000 * dv / 2 ^ 53 \<le> pv" by linarith
  with d have "200 < pv" unfolding pows by linarith
  then show ?thesis by (simp add: pv_def)
qed




lemma suppress_test_gt:
  "201 / 1000 \<le> valof now - valof ts \<Longrightarrow> \<not> suppress_test now ts"
  using elapsed_gt_200 [of now ts] by (simp add: suppress_test_def CLICK_SUPPRESS_MS_def)


section \<open>Facts about the example states\<close>

lemma lower_Code: "lower ''Code.exe'' = ''code.exe''"
  by (simp add: lower_def lower_char_def)


lemma fg_vscode: "foreground_is_vscode env_vscode = Inr True"
  by (simp add: foreground_is_vscode_def env_vscode_def pid_is_vscode_def lower_Code
      VS_CODE_EXE_def)





lemma scope_check_alt:
  "scope_check env =
     (case foreground_is_vscode env of
        Inl e \<Rightarrow> Inl e
      | Inr True \<Rightarrow> Inr True
      | Inr False \<Rightarrow>
          window_at_point_is_vscode env (fst (get_position env)) (snd (get_position env)))"
  by (simp add: scope_check_def case_prod_beta)

lemma scope_vscode: "scope_check env_vscode = Inr True"
  by (simp add: scope_check_alt fg_vscode)

text \<open>The scope test asks for the pointer, the windows and the processes only.\<close>

lemma scope_check_cong:
  assumes "get_position env' = get_position env"
    and "GetForegroundWindow env' = GetForegroundWindow env"
    and "WindowFromPoint env' = WindowFromPoint env"
    and "GetWindowThreadProcessId env' = GetWindowThreadProcessId env"
    and "Process_name env' = Process_name env"
  shows "scope_check env' = scope_check env"
  unfolding scope_check_def foreground_is_vscode_def window_at_point_is_vscode_def
    pid_is_vscode_def assms
  by (rule refl)





lemma scope_new_snip: "scope_check env_new_snip = Inr True"
  using scope_check_cong [of env_new_snip env_vscode]
  by (simp add: scope_vscode env_new_snip_def)

lemma scope_readonly: "scope_check env_readonly = Inr True"
  using scope_check_cong [of env_readonly env_vscode]
  by (simp add: scope_vscode env_readonly_def)

lemma ten_seconds:
  "201 / 1000 \<le> valof (Double 1010 0) - valof (Double 1000 0)"
  by (simp add: valof_def)

lemma not_suppressed_vscode: "\<not> suppressed env_vscode snap7"
  using suppress_test_gt [OF ten_seconds]
  by (simp add: suppressed_def env_vscode_def snap7_def)

lemma not_stale_vscode: "\<not> stale env_vscode snap7"
  by (simp add: stale_def seq_def dib_available_def env_vscode_def snap7_def)

lemma not_suppressed_new_snip: "\<not> suppressed env_new_snip snap7"
  using suppress_test_gt [OF ten_seconds]
  by (simp add: suppressed_def env_new_snip_def env_vscode_def snap7_def)

lemma not_suppressed_readonly: "\<not> suppressed env_readonly snap7"
  using suppress_test_gt [OF ten_seconds]
  by (simp add: suppressed_def env_readonly_def env_vscode_def snap7_def)

lemma not_stale_readonly: "\<not> stale env_readonly snap7"
  by (simp add: stale_def seq_def dib_available_def env_readonly_def env_vscode_def snap7_def)

lemma save_readonly: "save_image env_readonly (last_snip_bytes snap7) = Inl OSError"
  by (simp add: save_image_def env_readonly_def env_vscode_def snap7_def)

section \<open>The click handler\<close>

lemma handler_left_down:
  "click_handler env st (ButtonEvent ''down'' LEFT) =
     (case scope_check env of
        Inl e \<Rightarrow> ([], Inl e)
      | Inr False \<Rightarrow> ([], Inr OutOfScope)
      | Inr True \<Rightarrow>
          if suppressed env st then ([], Inr Suppressed)
          else if stale env st then ([], Inr Stale)
          else (case save_image env (last_snip_bytes st) of
                  Inl e \<Rightarrow> ([SaveImage (last_snip_bytes st)], Inl e)
                | Inr p \<Rightarrow>
                    (case pyperclip_copy env p of
                       Some e \<Rightarrow> ([SaveImage (last_snip_bytes st), Copy p], Inl e)
                     | None \<Rightarrow>
                         (case print_error env (saved_message p) of
                            Some e \<Rightarrow>
                              ([SaveImage (last_snip_bytes st), Copy p,
                                Print (saved_message p)], Inl e)
                          | None \<Rightarrow>
                              ([SaveImage (last_snip_bytes st), Copy p,
                                Print (saved_message p)], Inr (Saved p))))))"
  by (simp add: click_handler_def)

lemma handler_in_scope:
  assumes "scope_check env = Inr True"
  shows "click_handler env st (ButtonEvent ''down'' LEFT) =
     (if suppressed env st then ([], Inr Suppressed)
      else if stale env st then ([], Inr Stale)
      else (case save_image env (last_snip_bytes st) of
              Inl e \<Rightarrow> ([SaveImage (last_snip_bytes st)], Inl e)
            | Inr p \<Rightarrow>
                (case pyperclip_copy env p of
                   Some e \<Rightarrow> ([SaveImage (last_snip_bytes st), Copy p], Inl e)
                 | None \<Rightarrow>
                     (case print_error env (saved_message p) of
                        Some e \<Rightarrow>
                          ([SaveImage (last_snip_bytes st), Copy p,
                            Print (saved_message p)], Inl e)
                      | None \<Rightarrow>
                          ([SaveImage (last_snip_bytes st), Copy p,
                            Print (saved_message p)], Inr (Saved p))))))"
  by (simp add: handler_left_down assms)

lemma handler_accepts:
  assumes "scope_check env = Inr True" "\<not> suppressed env st" "\<not> stale env st"
  shows "\<exists>cs r. click_handler env st (ButtonEvent ''down'' LEFT)
                  = (SaveImage (last_snip_bytes st) # cs, r)"
  by (simp add: handler_in_scope assms split: sum.split option.split)

lemma handler_calls_cases:
  "fst (click_handler env st ev) = [] \<or>
   (\<not> suppressed env st \<and> \<not> stale env st \<and>
    (\<exists>cs. fst (click_handler env st ev) = SaveImage (last_snip_bytes st) # cs
          \<and> (\<forall>c \<in> set cs. \<forall>b. c \<noteq> SaveImage b)))"
  by (auto simp: click_handler_def split: event.split sum.split bool.split option.split)

section \<open>Claims about the click handler\<close>




text \<open>
  C3. A click that reaches the freshness test is rejected, with no call to
  \<^verbatim>\<open>_save_image\<close>, when the clipboard's sequence number differs from the snapshot's or
  the clipboard holds no bitmap. Whatever the event, the handler calls \<^verbatim>\<open>_save_image\<close>
  only on the snapshot's payload and only while the clipboard still has the snapshot's
  sequence number and a bitmap.
\<close>

theorem freshness_gate:
  "(scope_check env = Inr True \<and> \<not> suppressed env st
      \<and> (seq env \<noteq> last_snip_seq st \<or> \<not> dib_available env)
      \<longrightarrow> click_handler env st (ButtonEvent ''down'' LEFT) = ([], Inr Stale))
   \<and> (SaveImage b \<in> set (fst (click_handler env st ev))
      \<longrightarrow> seq env = last_snip_seq st \<and> dib_available env \<and> b = last_snip_bytes st)"
proof (intro conjI impI)
  assume "scope_check env = Inr True \<and> \<not> suppressed env st
      \<and> (seq env \<noteq> last_snip_seq st \<or> \<not> dib_available env)"
  then show "click_handler env st (ButtonEvent ''down'' LEFT) = ([], Inr Stale)"
    by (simp add: handler_in_scope stale_def)
next
  assume m: "SaveImage b \<in> set (fst (click_handler env st ev))"
  from handler_calls_cases [of env st ev] m
  have "\<not> stale env st \<and> b = last_snip_bytes st" by auto
  then show "seq env = last_snip_seq st" "dib_available env" "b = last_snip_bytes st"
    by (simp_all add: stale_def)
qed

theorem freshness_gate_witness:
  "click_handler env_new_snip snap7 (ButtonEvent ''down'' LEFT) = ([], Inr Stale)
   \<and> SaveImage [40, 0, 0, 0] \<in> set (fst (click_handler env_vscode snap7 (ButtonEvent ''down'' LEFT)))
   \<and> seq env_vscode = last_snip_seq snap7 \<and> dib_available env_vscode
   \<and> [40, 0, 0, 0] = last_snip_bytes snap7"
proof -
  have moved: "seq env_new_snip \<noteq> last_snip_seq snap7 \<or> \<not> dib_available env_new_snip"
    by (simp add: seq_def env_new_snip_def snap7_def)
  from freshness_gate [of env_new_snip snap7] scope_new_snip not_suppressed_new_snip moved
  have 1: "click_handler env_new_snip snap7 (ButtonEvent ''down'' LEFT) = ([], Inr Stale)"
    by blast
  obtain cs r where "click_handler env_vscode snap7 (ButtonEvent ''down'' LEFT)
      = (SaveImage (last_snip_bytes snap7) # cs, r)"
    using handler_accepts [OF scope_vscode not_suppressed_vscode not_stale_vscode] by blast
  then have 2: "SaveImage [40, 0, 0, 0]
      \<in> set (fst (click_handler env_vscode snap7 (ButtonEvent ''down'' LEFT)))"
    by (simp add: snap7_def)
  from freshness_gate [of env_vscode snap7 "[40, 0, 0, 0]" "ButtonEvent ''down'' LEFT"] 2
  have 3: "seq env_vscode = last_snip_seq snap7 \<and> dib_available env_vscode
      \<and> [40, 0, 0, 0] = last_snip_bytes snap7"
    by blast
  from 1 2 3 show ?thesis by blast
qed




text \<open>
  C6, as the source has it. The handler has no \<^verbatim>\<open>try\<close>: an exception of \<^verbatim>\<open>_save_image\<close>
  during an accepted click leaves the handler and reaches the hook that called it. That
  click makes the one call to \<^verbatim>\<open>_save_image\<close> and neither copies a path nor prints the
  confirmation; the handler writes none of the three globals of the snapshot.
\<close>

theorem save_failure_propagates:
  assumes "scope_check env = Inr True" and "\<not> suppressed env st" and "\<not> stale env st"
    and "save_image env (last_snip_bytes st) = Inl e"
  shows "click_handler env st (ButtonEvent ''down'' LEFT)
           = ([SaveImage (last_snip_bytes st)], Inl e)"
  using assms by (simp add: handler_in_scope)

theorem save_failure_propagates_witness:
  "save_image env_readonly (last_snip_bytes snap7) = Inl OSError
   \<and> click_handler env_readonly snap7 (ButtonEvent ''down'' LEFT)
       = ([SaveImage (last_snip_bytes snap7)], Inl OSError)"
proof -
  from save_failure_propagates
    [OF scope_readonly not_suppressed_readonly not_stale_readonly save_readonly]
    save_readonly
  show ?thesis by blast
qed

text \<open>
  C6, as the claim has it, fails: with the screenshots directory read-only, the
  \<^verbatim>\<open>OSError\<close> of \<^verbatim>\<open>img.save\<close> is the outcome of the handler itself.
\<close>

theorem save_failure_escapes:
  "snd (click_handler env_readonly snap7 (ButtonEvent ''down'' LEFT)) = Inl OSError"
  by (simp add: handler_in_scope scope_readonly not_suppressed_readonly not_stale_readonly
      save_readonly)

section \<open>Claims about the window classifier\<close>

text \<open>
  C8, as the source has it. A null window handle and a \<^verbatim>\<open>psutil.Error\<close> of the process
  lookup give \<^verbatim>\<open>False\<close> and are not raised. An exception of
  \<^verbatim>\<open>GetWindowThreadProcessId\<close>, and an exception of the process lookup that is not a
  \<^verbatim>\<open>psutil.Error\<close>, is not caught and reaches the caller.
\<close>

theorem classifier_failures:
  "(Process_name env pid = Inl e \<and> is_psutil_Error e \<longrightarrow> pid_is_vscode env pid = Inr False)
   \<and> (GetForegroundWindow env = 0 \<longrightarrow> foreground_is_vscode env = Inr False)
   \<and> (WindowFromPoint env (x, y) = 0 \<longrightarrow> window_at_point_is_vscode env x y = Inr False)
   \<and> (GetForegroundWindow env \<noteq> 0
        \<and> GetWindowThreadProcessId env (GetForegroundWindow env) = Inl e
      \<longrightarrow> foreground_is_vscode env = Inl e)
   \<and> (WindowFromPoint env (x, y) \<noteq> 0
        \<and> GetWindowThreadProcessId env (WindowFromPoint env (x, y)) = Inl e
      \<longrightarrow> window_at_point_is_vscode env x y = Inl e)
   \<and> (Process_name env pid = Inl e \<and> \<not> is_psutil_Error e \<longrightarrow> pid_is_vscode env pid = Inl e)"
  by (simp add: pid_is_vscode_def foreground_is_vscode_def window_at_point_is_vscode_def)

theorem classifier_failures_witness:
  "pid_is_vscode env_exited 4242 = Inr False
   \<and> window_at_point_is_vscode env_exited 640 360 = Inr False
   \<and> foreground_is_vscode (env_vscode\<lparr>GetForegroundWindow := 0\<rparr>) = Inr False
   \<and> foreground_is_vscode env_gone = Inl PywintypesError
   \<and> window_at_point_is_vscode env_gone 640 360 = Inl PywintypesError
   \<and> pid_is_vscode (env_vscode\<lparr>Process_name := (\<lambda>p. Inl OSError)\<rparr>) 4242 = Inl OSError"
proof -
  have a: "Process_name env_exited 4242 = Inl PsutilError \<and> is_psutil_Error PsutilError"
    by (simp add: env_exited_def)
  have b: "WindowFromPoint env_exited (640, 360) = 0"
    by (simp add: env_exited_def)
  have c: "GetForegroundWindow (env_vscode\<lparr>GetForegroundWindow := 0\<rparr>) = 0"
    by simp
  have d: "GetForegroundWindow env_gone \<noteq> 0
      \<and> GetWindowThreadProcessId env_gone (GetForegroundWindow env_gone) = Inl PywintypesError"
    by (simp add: env_gone_def env_vscode_def)
  have e: "WindowFromPoint env_gone (640, 360) \<noteq> 0
      \<and> GetWindowThreadProcessId env_gone (WindowFromPoint env_gone (640, 360))
          = Inl PywintypesError"
    by (simp add: env_gone_def env_vscode_def)
  have f: "Process_name (env_vscode\<lparr>Process_name := (\<lambda>p. Inl OSError)\<rparr>) 4242 = Inl OSError
      \<and> \<not> is_psutil_Error OSError"
    by simp
  from classifier_failures [of env_exited 4242 PsutilError 640 360] a b
  have 1: "pid_is_vscode env_exited 4242 = Inr False
      \<and> window_at_point_is_vscode env_exited 640 360 = Inr False"
    by blast
  from classifier_failures [of "env_vscode\<lparr>GetForegroundWindow := 0\<rparr>"] c
  have 2: "foreground_is_vscode (env_vscode\<lparr>GetForegroundWindow := 0\<rparr>) = Inr False"
    by blast
  from classifier_failures [of env_gone 4242 PywintypesError 640 360] d e
  have 3: "foreground_is_vscode env_gone = Inl PywintypesError
      \<and> window_at_point_is_vscode env_gone 640 360 = Inl PywintypesError"
    by blast
  from classifier_failures [of "env_vscode\<lparr>Process_name := (\<lambda>p. Inl OSError)\<rparr>" 4242 OSError] f
  have 4: "pid_is_vscode (env_vscode\<lparr>Process_name := (\<lambda>p. Inl OSError)\<rparr>) 4242 = Inl OSError"
    by blast
  from 1 2 3 4 show ?thesis by blast
qed

text \<open>
  C8, as the claim has it, fails: when the foreground window is destroyed between
  \<^verbatim>\<open>GetForegroundWindow\<close> and \<^verbatim>\<open>GetWindowThreadProcessId\<close>, the error of the second
  call is raised to the caller of \<^verbatim>\<open>_foreground_is_vscode\<close>.
\<close>

theorem window_failure_raised:
  "foreground_is_vscode env_gone = Inl PywintypesError"
  by (simp add: foreground_is_vscode_def env_gone_def env_vscode_def)


section \<open>Claims about the clipboard watcher\<close>

lemma poll_iteration_same_seq:
  "seq env = seq_prev \<Longrightarrow>
     poll_iteration env (seq_prev, st)
       = ([Seq_now_assign seq_prev, Sleep_call], (seq_prev, st))"
  by (simp add: poll_iteration_def)

lemma monitor_loop_same_seq:
  "\<forall>e \<in> set envs. seq e = n \<Longrightarrow> monitor_loop envs (n, st) = (n, st)"
  by (induction envs) (simp_all add: poll_iteration_same_seq)

lemma poll_iteration_seq_prev:
  "fst (snd (poll_iteration env (seq_prev, st))) = seq env"
  by (simp add: poll_iteration_def Let_def split: option.split)

lemma poll_iteration_trace_changed:
  assumes "seq env \<noteq> seq_prev"
  shows "\<exists>rest. fst (poll_iteration env (seq_prev, st))
           = Seq_now_assign (seq env) # Seq_prev_assign (seq env) # Dib_available_call # rest"
  using assms by (simp add: poll_iteration_def Let_def split: option.split)

lemma poll_iteration_store:
  assumes "snd (snd (poll_iteration env (seq_prev, st))) \<noteq> st"
  shows "dib_available env \<and>
     (\<exists>d. read_dib env = Some d \<and> d \<noteq> [] \<and>
          snd (snd (poll_iteration env (seq_prev, st)))
            = \<lparr>last_snip_ts = time_time env, last_snip_seq = seq env, last_snip_bytes = d\<rparr>)"
  using assms by (auto simp: poll_iteration_def Let_def split: option.splits if_splits)

lemma seq_locked: "seq env_locked = 8"
  by (simp add: seq_def env_locked_def)

lemma poll_locked:
  "poll_iteration env_locked (7, snap7)
     = ([Seq_now_assign 8, Seq_prev_assign 8, Dib_available_call, Read_dib_call, Sleep_call],
        (8, snap7))"
  by (simp add: poll_iteration_def seq_def dib_available_def read_dib_def env_locked_def
      env_vscode_def)

lemma poll_new_snip:
  "snd (snd (poll_iteration env_new_snip (7, snap7)))
     = \<lparr>last_snip_ts = Double 1010 0, last_snip_seq = 8, last_snip_bytes = [40, 1]\<rparr>"
  by (simp add: poll_iteration_def seq_def dib_available_def read_dib_def env_new_snip_def
      env_vscode_def)

text \<open>
  C7. On a pass of the watcher's loop in which the sequence number read differs from
  the remembered one, the remembered one is set to the new value before
  \<^verbatim>\<open>_dib_available\<close> and \<^verbatim>\<open>_read_dib\<close> are called, so that after the pass it equals the
  new value whether or not the bitmap could be read, and the later passes that read
  the same sequence number change nothing. The snapshot is written only when a bitmap
  is available and has been read.
\<close>

theorem watcher_remembers_token:
  assumes "seq env \<noteq> seq_prev"
  shows "fst (snd (poll_iteration env (seq_prev, st))) = seq env
     \<and> runs_before (Seq_prev_assign (seq env)) Dib_available_call
          (fst (poll_iteration env (seq_prev, st)))
     \<and> runs_before (Seq_prev_assign (seq env)) Read_dib_call
          (fst (poll_iteration env (seq_prev, st)))
     \<and> ((\<forall>e \<in> set envs. seq e = seq env)
          \<longrightarrow> monitor_loop envs (snd (poll_iteration env (seq_prev, st)))
                = snd (poll_iteration env (seq_prev, st)))
     \<and> (snd (snd (poll_iteration env (seq_prev, st))) \<noteq> st
          \<longrightarrow> dib_available env \<and>
              (\<exists>d. read_dib env = Some d \<and> d \<noteq> [] \<and>
                   snd (snd (poll_iteration env (seq_prev, st)))
                     = \<lparr>last_snip_ts = time_time env, last_snip_seq = seq env,
                        last_snip_bytes = d\<rparr>))"
proof (intro conjI impI)
  show "fst (snd (poll_iteration env (seq_prev, st))) = seq env"
    by (rule poll_iteration_seq_prev)
next
  obtain rest where tr: "fst (poll_iteration env (seq_prev, st))
      = Seq_now_assign (seq env) # Seq_prev_assign (seq env) # Dib_available_call # rest"
    using poll_iteration_trace_changed [OF assms] by blast
  show "runs_before (Seq_prev_assign (seq env)) Dib_available_call
          (fst (poll_iteration env (seq_prev, st)))"
    by (simp add: tr runs_before_def)
  show "runs_before (Seq_prev_assign (seq env)) Read_dib_call
          (fst (poll_iteration env (seq_prev, st)))"
    by (simp add: tr runs_before_def split: option.split)
next
  assume same: "\<forall>e \<in> set envs. seq e = seq env"
  obtain n st' where s': "snd (poll_iteration env (seq_prev, st)) = (n, st')"
    by (cases "snd (poll_iteration env (seq_prev, st))")
  with poll_iteration_seq_prev [of env seq_prev st] have "n = seq env" by simp
  with same s' show "monitor_loop envs (snd (poll_iteration env (seq_prev, st)))
      = snd (poll_iteration env (seq_prev, st))"
    by (simp add: monitor_loop_same_seq)
next
  assume "snd (snd (poll_iteration env (seq_prev, st))) \<noteq> st"
  then have "dib_available env \<and>
     (\<exists>d. read_dib env = Some d \<and> d \<noteq> [] \<and>
          snd (snd (poll_iteration env (seq_prev, st)))
            = \<lparr>last_snip_ts = time_time env, last_snip_seq = seq env, last_snip_bytes = d\<rparr>)"
    by (rule poll_iteration_store)
  then show "dib_available env"
    and "\<exists>d. read_dib env = Some d \<and> d \<noteq> [] \<and>
          snd (snd (poll_iteration env (seq_prev, st)))
            = \<lparr>last_snip_ts = time_time env, last_snip_seq = seq env, last_snip_bytes = d\<rparr>"
    by blast+
qed

theorem watcher_remembers_token_witness:
  "seq env_locked \<noteq> 7
   \<and> read_dib env_locked = None
   \<and> fst (snd (poll_iteration env_locked (7, snap7))) = seq env_locked
   \<and> monitor_loop [env_locked, env_vscode\<lparr>GetClipboardSequenceNumber := 8\<rparr>]
        (snd (poll_iteration env_locked (7, snap7)))
       = snd (poll_iteration env_locked (7, snap7))
   \<and> snd (snd (poll_iteration env_new_snip (7, snap7))) \<noteq> snap7
   \<and> dib_available env_new_snip"
proof -
  have changed: "seq env_locked \<noteq> 7"
    by (simp add: seq_locked)
  have changed': "seq env_new_snip \<noteq> 7"
    by (simp add: seq_def env_new_snip_def)
  have unread: "read_dib env_locked = None"
    by (simp add: read_dib_def env_locked_def)
  have later: "\<forall>e \<in> set [env_locked, env_vscode\<lparr>GetClipboardSequenceNumber := 8\<rparr>].
      seq e = seq env_locked"
    by (simp add: seq_def env_locked_def)
  have written: "snd (snd (poll_iteration env_new_snip (7, snap7))) \<noteq> snap7"
    unfolding poll_new_snip by (simp add: snap7_def)
  from watcher_remembers_token
    [OF changed, of snap7 "[env_locked, env_vscode\<lparr>GetClipboardSequenceNumber := 8\<rparr>]"] later
  have 1: "fst (snd (poll_iteration env_locked (7, snap7))) = seq env_locked
      \<and> monitor_loop [env_locked, env_vscode\<lparr>GetClipboardSequenceNumber := 8\<rparr>]
           (snd (poll_iteration env_locked (7, snap7)))
          = snd (poll_iteration env_locked (7, snap7))"
    by blast
  from watcher_remembers_token [OF changed', of snap7 "[]"] written
  have 2: "dib_available env_new_snip"
    by blast
  from changed unread 1 written 2 show ?thesis by blast
qed

section \<open>Claims about the instance lock\<close>

text \<open>
  C10. Releasing the lock is idempotent: when no lock is held, \<^verbatim>\<open>_release_lock\<close> changes
  nothing, and in every state two releases in a row leave the state that one release
  leaves.
\<close>

theorem release_idempotent:
  "(lock_socket g = None \<longrightarrow> release_lock g = g)
   \<and> release_lock (release_lock g) = release_lock g"
  by (simp add: release_lock_def close_sock_def split: option.split)

theorem release_idempotent_witness:
  "lock_socket gate0 = None
   \<and> release_lock gate0 = gate0
   \<and> release_lock (release_lock gate_held) = release_lock gate_held
   \<and> release_lock gate_held \<noteq> gate_held"
proof -
  have none: "lock_socket gate0 = None"
    by (simp add: gate0_def)
  have freed: "release_lock gate_held \<noteq> gate_held"
  proof
    assume "release_lock gate_held = gate_held"
    then have "lock_socket (release_lock gate_held) = lock_socket gate_held" by simp
    then show False by (simp add: release_lock_def gate_held_def)
  qed
  from release_idempotent [of gate0] none have 1: "release_lock gate0 = gate0"
    by blast
  from release_idempotent [of gate_held]
  have 2: "release_lock (release_lock gate_held) = release_lock gate_held"
    by blast
  from none 1 2 freed show ?thesis by blast
qed

section \<open>Claims about the start of the process\<close>
















section \<open>Claims about the watcher and the hook running together\<close>

lemma step_keeps_snap:
  "a \<noteq> Watcher \<Longrightarrow> snap (step a s) = snap s"
  by (cases a) (simp_all add: handler_step_def split: hpc.split)

lemma step_keeps_seen_from:
  "a \<noteq> Watcher \<Longrightarrow> seen_from s (snap s) \<Longrightarrow> seen_from (step a s) (snap s)"
  by (cases a) (auto simp: handler_step_def seen_from_def split: hpc.split)

lemma run_without_watcher:
  "Watcher \<notin> set sched \<Longrightarrow> seen_from s (snap s) \<Longrightarrow>
     snap (run sched s) = snap s \<and> seen_from (run sched s) (snap s)"
proof (induction sched arbitrary: s)
  case Nil
  then show ?case by simp
next
  case (Cons a sched)
  from Cons.prems have a: "a \<noteq> Watcher" and rest: "Watcher \<notin> set sched"
    by auto
  have keep: "snap (step a s) = snap s"
    by (rule step_keeps_snap [OF a])
  have "seen_from (step a s) (snap (step a s))"
    using step_keeps_seen_from [OF a Cons.prems(2)] by (simp add: keep)
  from Cons.IH [OF rest this] show ?case
    by (simp add: keep)
qed

lemma publish_three_lines:
  "w_pc s = L132 \<Longrightarrow> w_dib s = Some d \<Longrightarrow>
     snap (run [Watcher, Watcher, Watcher] s)
       = \<lparr>last_snip_ts = clock s, last_snip_seq = w_seq_now s, last_snip_bytes = d\<rparr>"
  by (simp add: watcher_step_def)

lemma torn_run:
  "run torn_schedule sys0 =
     \<lparr>snap = \<lparr>last_snip_ts = Double 1000 0, last_snip_seq = 7, last_snip_bytes = [40, 1]\<rparr>,
      clip_seq = 8, clip_dib = Some [40, 1], clock = Double 1010 0,
      w_pc = L133, w_seq_prev = 8, w_seq_now = 8, w_dib = Some [40, 1],
      h_pc = Returned, seen_ts = Some (Double 1000 0), seen_seq = Some 7, seen_bytes = Some [40, 1],
      saved = Some [40, 1]\<rparr>"
  by (simp add: torn_schedule_def sys0_def snap7_def watcher_step_def handler_step_def
      suppress_test_gt [OF ten_seconds])

lemma late_ts_run:
  "run late_ts_schedule sys0 =
     \<lparr>snap = \<lparr>last_snip_ts = Double 1000 0, last_snip_seq = 8, last_snip_bytes = [40, 1]\<rparr>,
      clip_seq = 8, clip_dib = Some [40, 1], clock = Double 1010 0,
      w_pc = L134, w_seq_prev = 8, w_seq_now = 8, w_dib = Some [40, 1],
      h_pc = Returned, seen_ts = Some (Double 1000 0), seen_seq = Some 8, seen_bytes = Some [40, 1],
      saved = Some [40, 1]\<rparr>"
  by (simp add: late_ts_schedule_def sys0_def snap7_def watcher_step_def handler_step_def
      suppress_test_gt [OF ten_seconds])

text \<open>
  C1, as the source has it. The watcher writes the payload, the sequence number and the
  capture time in three assignments (lines 132 to 134) and neither thread takes a lock.
  Run one after the other with the clock standing, the three assignments leave exactly
  the payload read, the sequence number observed and the time of the write in the
  snapshot; and as long as no step of the watcher falls between the handler's reads,
  the snapshot does not change and every value the handler reads comes from that one
  snapshot.
\<close>

theorem snapshot_without_lock:
  "(w_pc s = L132 \<and> w_dib s = Some d
      \<longrightarrow> snap (run [Watcher, Watcher, Watcher] s)
            = \<lparr>last_snip_ts = clock s, last_snip_seq = w_seq_now s, last_snip_bytes = d\<rparr>)
   \<and> (Watcher \<notin> set sched \<and> seen_from s (snap s)
      \<longrightarrow> snap (run sched s) = snap s \<and> seen_from (run sched s) (snap s))"
  using publish_three_lines [of s d] run_without_watcher [of sched s] by blast

theorem snapshot_without_lock_witness:
  "snap (run [Watcher, Watcher, Watcher] (run (take 9 torn_schedule) sys0))
     = \<lparr>last_snip_ts = Double 1010 0, last_snip_seq = 8, last_snip_bytes = [40, 1]\<rparr>
   \<and> snap (run [Handler, Clock (Double 1011 0), Handler, Handler] sys0) = snap7
   \<and> seen_from (run [Handler, Clock (Double 1011 0), Handler, Handler] sys0) snap7"
proof -
  have before: "run (take 9 torn_schedule) sys0 =
     \<lparr>snap = snap7, clip_seq = 8, clip_dib = Some [40, 1], clock = Double 1010 0,
      w_pc = L132, w_seq_prev = 8, w_seq_now = 8, w_dib = Some [40, 1],
      h_pc = L161, seen_ts = Some (Double 1000 0), seen_seq = Some 7, seen_bytes = None,
      saved = None\<rparr>"
    by (simp add: torn_schedule_def sys0_def snap7_def watcher_step_def handler_step_def
        suppress_test_gt [OF ten_seconds])
  have at_132: "w_pc (run (take 9 torn_schedule) sys0) = L132
      \<and> w_dib (run (take 9 torn_schedule) sys0) = Some [40, 1]"
    by (simp add: before)
  have vals: "clock (run (take 9 torn_schedule) sys0) = Double 1010 0
      \<and> w_seq_now (run (take 9 torn_schedule) sys0) = 8"
    by (simp add: before)
  have quiet: "Watcher \<notin> set [Handler, Clock (Double 1011 0), Handler, Handler]
      \<and> seen_from sys0 (snap sys0)"
    by (simp add: seen_from_def sys0_def)
  have s0: "snap sys0 = snap7"
    by (simp add: sys0_def)
  from snapshot_without_lock [of "run (take 9 torn_schedule) sys0" "[40, 1]"] at_132
  have "snap (run [Watcher, Watcher, Watcher] (run (take 9 torn_schedule) sys0))
     = \<lparr>last_snip_ts = clock (run (take 9 torn_schedule) sys0),
        last_snip_seq = w_seq_now (run (take 9 torn_schedule) sys0),
        last_snip_bytes = [40, 1]\<rparr>"
    by blast
  then have 1: "snap (run [Watcher, Watcher, Watcher] (run (take 9 torn_schedule) sys0))
     = \<lparr>last_snip_ts = Double 1010 0, last_snip_seq = 8, last_snip_bytes = [40, 1]\<rparr>"
    using vals by simp
  from snapshot_without_lock [of sys0 _ "[Handler, Clock (Double 1011 0), Handler, Handler]"] quiet
  have "snap (run [Handler, Clock (Double 1011 0), Handler, Handler] sys0) = snap sys0
      \<and> seen_from (run [Handler, Clock (Double 1011 0), Handler, Handler] sys0) (snap sys0)"
    by blast
  then have 2: "snap (run [Handler, Clock (Double 1011 0), Handler, Handler] sys0) = snap7
      \<and> seen_from (run [Handler, Clock (Double 1011 0), Handler, Handler] sys0) snap7"
    by (simp add: s0)
  from 1 2 show ?thesis by blast
qed

text \<open>
  C1, as the claim has it, fails. In the first run the handler tests the stored
  sequence number 7 against the clipboard, a new snip arrives, the watcher writes the
  new payload at line 132, and the handler saves that payload: the new payload with the
  old sequence number. In the second the watcher has written the payload and the
  sequence number of the new snip but not yet its capture time when the click is
  tested: the new payload and sequence number with the old capture time.
\<close>

theorem torn_snapshot_read:
  "seen_seq (run torn_schedule sys0) = Some (last_snip_seq snap7)
   \<and> saved (run torn_schedule sys0) = Some [40, 1]
   \<and> last_snip_bytes snap7 = [40, 0, 0, 0]
   \<and> seen_ts (run late_ts_schedule sys0) = Some (last_snip_ts snap7)
   \<and> seen_seq (run late_ts_schedule sys0) = Some 8
   \<and> saved (run late_ts_schedule sys0) = Some [40, 1]"
  by (simp add: torn_run late_ts_run) (simp add: snap7_def)



end
